theory Spec2Isabelle
  imports Main "HOL-Library.Word"
begin

section \<open>Common data\<close>

text \<open>
  Python \<^verbatim>\<open>bytes\<close> values (HexBytes of the web3 client) are lists of 8-bit words.
  Every exception the two scripts can meet is a value of \<open>error\<close>; a call that may raise
  returns \<open>error + 'a\<close> with \<open>Inl\<close> for the raised exception.
\<close>

type_synonym byte = "8 word"
type_synonym bytes = "byte list"

datatype error =
    RpcError
  | ContractReverted
  | TimeExhausted
  | IndexError
  | ValueError
  | OverflowError

text \<open>\<^verbatim>\<open>bytes.hex()\<close>: two lower-case hexadecimal digits per byte, without a prefix.\<close>

definition hexdigit :: "nat \<Rightarrow> char" where
  "hexdigit n = (''0123456789abcdef'' ! (n mod 16))"

definition hex :: "bytes \<Rightarrow> string" where
  "hex bs = concat (map (\<lambda>b. [hexdigit (unat b div 16), hexdigit (unat b mod 16)]) bs)"

text \<open>
  \<^verbatim>\<open>web3._utils.encoding.pad_bytes(fill_with, num_bytes, unpadded)\<close> is
  \<^verbatim>\<open>unpadded.rjust(num_bytes, fill_with)\<close>: the fill byte is put in front until the
  width is reached, and a value that is already that wide or wider is returned as it is.
\<close>

definition pad_bytes :: "byte \<Rightarrow> nat \<Rightarrow> bytes \<Rightarrow> bytes" where
  "pad_bytes fill_with num_bytes unpadded =
     replicate (num_bytes - length unpadded) fill_with @ unpadded"

section \<open>The listener (listener.py)\<close>

subsection \<open>Data\<close>

text \<open>The arguments of a \<^verbatim>\<open>RequestLogged\<close> event, \<^verbatim>\<open>event['args']\<close>.\<close>

record request_logged =
  rl_requestId :: int
  rl_account :: string
  rl_key :: int
  rl_blockId :: int

text \<open>The block header and the \<^verbatim>\<open>eth_getProof\<close> answer, with the fields the script reads.\<close>

record block =
  stateRoot :: bytes

record storage_entry =
  se_key :: bytes
  se_value :: bytes
  se_proof :: "bytes list"

record proof_response =
  accountProof :: "bytes list"
  storageHash :: bytes
  storageProof :: "storage_entry list"

text \<open>
  The state proof is a Python list of seven items; the fields are named after their
  positions: state root, account, account proof, storage hash, storage key, storage value,
  storage proof.
\<close>

record state_proof =
  sp_stateRoot :: bytes
  sp_account :: string
  sp_accountProof :: "bytes list"
  sp_storageHash :: bytes
  sp_storageKey :: bytes
  sp_storageValue :: bytes
  sp_storageProof :: "bytes list"

subsection \<open>Effects\<close>

text \<open>
  Every call of the listener to the outside is written to a history, in the order the
  calls are made. The outside answers through a gateway: each answer may depend on the
  whole history before the call, so a gateway describes any behaviour of the two chains,
  also one that changes between two equal calls.
\<close>

datatype action =
    GetNewEntries
  | GetBlock int
  | GetProof string "int list" int
  | is_Verify: Verify (verify_requestId: int) (verify_stateProof: state_proof)
  | is_WaitReceipt: WaitReceipt (receipt_txn: bytes)
  | is_Print: Print (print_requestId: int) string
  | Sleep nat

record listener_gateway =
  get_new_entries :: "action list \<Rightarrow> error + request_logged list"
  get_block :: "action list \<Rightarrow> int \<Rightarrow> error + block"
  get_proof :: "action list \<Rightarrow> string \<Rightarrow> int list \<Rightarrow> int \<Rightarrow> error + proof_response"
  verify_transact :: "action list \<Rightarrow> int \<Rightarrow> state_proof \<Rightarrow> error + bytes"
  wait_for_transaction_receipt :: "action list \<Rightarrow> bytes \<Rightarrow> error + unit"

subsection \<open>handle_event\<close>

text \<open>
  The list literal of \<^verbatim>\<open>handle_event\<close> (lines 54 to 62). \<^verbatim>\<open>proof.storageProof[0]\<close>
  raises IndexError on an empty list.
\<close>

definition stateProof :: "block \<Rightarrow> string \<Rightarrow> proof_response \<Rightarrow> error + state_proof" where
  "stateProof block account proof =
     (case storageProof proof of
        [] \<Rightarrow> Inl IndexError
      | entry # _ \<Rightarrow>
          Inr \<lparr> sp_stateRoot = stateRoot block,
                sp_account = account,
                sp_accountProof = accountProof proof,
                sp_storageHash = storageHash proof,
                sp_storageKey = pad_bytes 0 32 (se_key entry),
                sp_storageValue = se_value entry,
                sp_storageProof = se_proof entry \<rparr>)"

text \<open>
  \<^verbatim>\<open>handle_event\<close> returns the history it leaves and either the exception that ended
  it or unit. The printed line is kept as the request id and the text of the value: the
  value is a HexBytes, whose \<^verbatim>\<open>hex()\<close> writes the prefix 0x before the digits.
\<close>

definition handle_event ::
  "listener_gateway \<Rightarrow> action list \<Rightarrow> request_logged \<Rightarrow> action list \<times> (error + unit)" where
  "handle_event gw h event =
     (let requestId = rl_requestId event;
          account = rl_account event;
          key = rl_key event;
          blockId = rl_blockId event;
          h1 = h @ [GetBlock blockId]
      in case get_block gw h blockId of
           Inl err \<Rightarrow> (h1, Inl err)
         | Inr block \<Rightarrow>
            (let h2 = h1 @ [GetProof account [key] blockId]
             in case get_proof gw h1 account [key] blockId of
                  Inl err \<Rightarrow> (h2, Inl err)
                | Inr proof \<Rightarrow>
                   (case stateProof block account proof of
                      Inl err \<Rightarrow> (h2, Inl err)
                    | Inr sp \<Rightarrow>
                       (let h3 = h2 @ [Verify requestId sp]
                        in case verify_transact gw h2 requestId sp of
                             Inl err \<Rightarrow> (h3, Inl err)
                           | Inr txn_hash \<Rightarrow>
                              (let h4 = h3 @ [WaitReceipt txn_hash]
                               in case wait_for_transaction_receipt gw h3 txn_hash of
                                    Inl err \<Rightarrow> (h4, Inl err)
                                  | Inr _ \<Rightarrow>
                                     (case storageProof proof of
                                        [] \<Rightarrow> (h4, Inl IndexError)
                                      | entry # _ \<Rightarrow>
                                         (h4 @ [Print requestId (''0x'' @ hex (se_value entry))],
                                          Inr ())))))))"

subsection \<open>log_loop\<close>

text \<open>
  The \<^verbatim>\<open>for\<close> loop over one batch: the events are handled one after the other, and
  an exception of \<^verbatim>\<open>handle_event\<close> leaves the loop at once, since nothing catches it.
\<close>

fun handle_entries ::
  "listener_gateway \<Rightarrow> action list \<Rightarrow> request_logged list \<Rightarrow> action list \<times> (error + unit)" where
  "handle_entries gw h [] = (h, Inr ())"
| "handle_entries gw h (e # es) =
     (case handle_event gw h e of
        (h', Inl err) \<Rightarrow> (h', Inl err)
      | (h', Inr _) \<Rightarrow> handle_entries gw h' es)"

text \<open>
  \<^verbatim>\<open>log_loop\<close> is \<^verbatim>\<open>while True\<close>: it never returns, it can only be left by an
  exception. The model runs a given number of iterations and says whether the loop is
  still running after them or which exception ended it.
\<close>

datatype loop_status = Running | Crashed error

fun log_loop ::
  "listener_gateway \<Rightarrow> nat \<Rightarrow> nat \<Rightarrow> action list \<Rightarrow> action list \<times> loop_status" where
  "log_loop gw poll_interval 0 h = (h, Running)"
| "log_loop gw poll_interval (Suc n) h =
     (case get_new_entries gw h of
        Inl err \<Rightarrow> (h @ [GetNewEntries], Crashed err)
      | Inr entries \<Rightarrow>
          (case handle_entries gw (h @ [GetNewEntries]) entries of
             (h', Inl err) \<Rightarrow> (h', Crashed err)
           | (h', Inr _) \<Rightarrow> log_loop gw poll_interval n (h' @ [Sleep poll_interval])))"

subsection \<open>Observations on a history\<close>

text \<open>The request ids of the verification transactions submitted in a history, in order.\<close>

fun verify_ids :: "action list \<Rightarrow> int list" where
  "verify_ids [] = []"
| "verify_ids (Verify requestId sp # h) = requestId # verify_ids h"
| "verify_ids (_ # h) = verify_ids h"




subsection \<open>The proof assembler as the specification words it\<close>

text \<open>
  The specification speaks of the storage-proof entry that matches the requested key. An
  entry matches a key when its key bytes, read as a big-endian number, are that key.
\<close>

definition be_nat :: "bytes \<Rightarrow> nat" where
  "be_nat bs = foldl (\<lambda>n b. 256 * n + unat b) 0 bs"

definition key_matches :: "int \<Rightarrow> storage_entry \<Rightarrow> bool" where
  "key_matches key entry = (int (be_nat (se_key entry)) = key)"

section \<open>The bot (bot.py)\<close>

subsection \<open>Data\<close>

text \<open>The arguments of a \<^verbatim>\<open>RequestServed\<close> event.\<close>

record request_served =
  rs_requestId :: int
  rs_reply :: bytes

text \<open>
  The tuple that \<^verbatim>\<open>getRequest\<close> returns, by position: \<^verbatim>\<open>msg[0]\<close> to \<^verbatim>\<open>msg[7]\<close>.
  The handler reads positions 0, 1, 2, 3, 6 and 7.
\<close>

record request_info =
  ri_address :: string
  ri_key :: int
  ri_block :: int
  ri_timestamp :: int
  ri_field4 :: int
  ri_field5 :: int
  ri_served :: bool
  ri_response :: bytes

text \<open>
  The messages sent with \<^verbatim>\<open>reply_text\<close>, kept as the values that the format strings
  show: the created request, the served request, the status of a request, and the
  message that no request with that id was found.
\<close>

datatype message =
    RequestCreated int string int int
  | RequestServedReply int string
  | RequestStatus int string int int string bool string
  | RequestNotFound int

datatype bot_action =
    RequestTransact string int int int int
  | BotWaitReceipt bytes
  | CallGetTotal
  | CallGetRequest int
  | CreateFilter int
  | ReplyText message

text \<open>
  The world of the bot: the contract calls and transactions on the home chain, answered
  by history as for the listener; the stream of \<^verbatim>\<open>RequestServed\<close> events that the
  chain emits after a filter was installed, one batch per poll, or the error of a poll;
  and the two Python library functions whose exceptions matter, \<^verbatim>\<open>int\<close> on a string
  and \<^verbatim>\<open>datetime.fromtimestamp\<close>. Sending a message is an output and always succeeds.
\<close>

record bot_gateway =
  py_int :: "string \<Rightarrow> error + int"
  py_fromtimestamp :: "int \<Rightarrow> error + string"
  request_transact :: "bot_action list \<Rightarrow> string \<Rightarrow> int \<Rightarrow> int \<Rightarrow> int \<Rightarrow> int \<Rightarrow> error + bytes"
  bot_wait_for_transaction_receipt :: "bot_action list \<Rightarrow> bytes \<Rightarrow> error + unit"
  getTotal :: "bot_action list \<Rightarrow> error + int"
  getRequest :: "bot_action list \<Rightarrow> int \<Rightarrow> error + request_info"
  RequestServed_events :: "bot_action list \<Rightarrow> error + (nat \<Rightarrow> error + request_served list)"

text \<open>The messages of a history, in the order they were sent.\<close>

fun replies :: "bot_action list \<Rightarrow> message list" where
  "replies [] = []"
| "replies (ReplyText m # h) = m # replies h"
| "replies (_ # h) = replies h"

text \<open>\<^verbatim>\<open>context.args[i]\<close> raises IndexError when the command has too few arguments.\<close>

definition arg :: "string list \<Rightarrow> nat \<Rightarrow> error + string" where
  "arg args i = (if i < length args then Inr (args ! i) else Inl IndexError)"

subsection \<open>listen\<close>

text \<open>
  An event filter is the stream of its polls: the result of the \<open>i\<close>-th call of
  \<^verbatim>\<open>get_new_entries\<close>. \<^verbatim>\<open>listen\<close> polls until a batch is not empty and returns its
  first entry; the loop has no bound, so the result \<open>None\<close> stands for a call that never
  returns. An exception of a poll leaves the loop. The sleep between two polls has no
  result and is not kept.
\<close>

partial_function (option) listen ::
  "(nat \<Rightarrow> error + 'e list) \<Rightarrow> nat \<Rightarrow> (error + 'e) option" where
  "listen eventFilter i =
     (case eventFilter i of
        Inl err \<Rightarrow> Some (Inl err)
      | Inr entries \<Rightarrow>
          if length entries > 0 then Some (Inr (entries ! 0))
          else listen eventFilter (Suc i))"

declare listen.simps [code]

text \<open>
  Modelled from the spec: the event filter of the chain gateway, which is library and node
  code outside the two scripts. The specification describes a filter as an event name
  with exact-match constraints on event fields, and a poll as returning the new matching
  events in order. \<^verbatim>\<open>createFilter\<close> with \<^verbatim>\<open>argument_filters={'requestId': requestId}\<close>
  therefore keeps, of every emitted batch, the events whose request id is the given one.
\<close>

definition createFilter ::
  "(nat \<Rightarrow> error + request_served list) \<Rightarrow> int \<Rightarrow> nat \<Rightarrow> error + request_served list" where
  "createFilter emitted requestId i =
     (case emitted i of
        Inl err \<Rightarrow> Inl err
      | Inr events \<Rightarrow> Inr (filter (\<lambda>event. rs_requestId event = requestId) events))"

subsection \<open>The request handler\<close>


subsection \<open>The check handler\<close>

text \<open>
  The argument is read and parsed before the \<^verbatim>\<open>try\<close>; the bare \<^verbatim>\<open>except\<close> catches
  every exception of the call and of the formatting of its result.
\<close>

definition check ::
  "bot_gateway \<Rightarrow> bot_action list \<Rightarrow> string list \<Rightarrow> bot_action list \<times> (error + unit)" where
  "check gw h args =
     (case arg args 0 of
        Inl err \<Rightarrow> (h, Inl err)
      | Inr arg0 \<Rightarrow>
     (case py_int gw arg0 of
        Inl err \<Rightarrow> (h, Inl err)
      | Inr requestId \<Rightarrow>
     (let h1 = h @ [CallGetRequest requestId]
      in case getRequest gw h requestId of
        Inl err \<Rightarrow> (h1 @ [ReplyText (RequestNotFound requestId)], Inr ())
      | Inr msg \<Rightarrow>
     (case py_fromtimestamp gw (ri_timestamp msg) of
        Inl err \<Rightarrow> (h1 @ [ReplyText (RequestNotFound requestId)], Inr ())
      | Inr date \<Rightarrow>
          (h1 @ [ReplyText (RequestStatus requestId (ri_address msg) (ri_key msg) (ri_block msg)
                              date (ri_served msg) (''0x'' @ hex (ri_response msg)))],
           Inr ())))))"

subsection \<open>The request counter of the Bridge contract\<close>







section \<open>Example inputs\<close>

text \<open>
  Two logged requests, the answers of the target chain for them, and gateways that answer
  every call, that cannot reach the target chain, that return a proof without a storage
  entry, and that reject the verification of request 42.
\<close>

definition ex_event_41 :: request_logged where
  "ex_event_41 = \<lparr> rl_requestId = 41, rl_account = ''0xabc'', rl_key = 3, rl_blockId = 17999999 \<rparr>"

definition ex_event_42 :: request_logged where
  "ex_event_42 = \<lparr> rl_requestId = 42, rl_account = ''0xabc'', rl_key = 3, rl_blockId = 18000000 \<rparr>"

definition ex_block :: block where
  "ex_block = \<lparr> stateRoot = [0x11] \<rparr>"

definition ex_entry :: storage_entry where
  "ex_entry = \<lparr> se_key = [0x03], se_value = [0x2a], se_proof = [[0x0c]] \<rparr>"

definition ex_proof :: proof_response where
  "ex_proof = \<lparr> accountProof = [[0x0a]], storageHash = [0x0b], storageProof = [ex_entry] \<rparr>"

definition ex_state_proof :: state_proof where
  "ex_state_proof =
     \<lparr> sp_stateRoot = [0x11], sp_account = ''0xabc'', sp_accountProof = [[0x0a]],
       sp_storageHash = [0x0b], sp_storageKey = replicate 31 0 @ [0x03],
       sp_storageValue = [0x2a], sp_storageProof = [[0x0c]] \<rparr>"

definition steady_gateway :: listener_gateway where
  "steady_gateway =
     \<lparr> get_new_entries = (\<lambda>h. Inr (if h = [] then [ex_event_41, ex_event_42] else [])),
       get_block = (\<lambda>h blockId. Inr ex_block),
       get_proof = (\<lambda>h account keys blockId. Inr ex_proof),
       verify_transact = (\<lambda>h requestId sp. Inr [0x05]),
       wait_for_transaction_receipt = (\<lambda>h txn_hash. Inr ()) \<rparr>"

definition rpc_down_gateway :: listener_gateway where
  "rpc_down_gateway = steady_gateway \<lparr> get_block := (\<lambda>h blockId. Inl RpcError) \<rparr>"

definition entry_missing_gateway :: listener_gateway where
  "entry_missing_gateway =
     steady_gateway \<lparr> get_proof := (\<lambda>h account keys blockId. Inr (ex_proof \<lparr> storageProof := [] \<rparr>)) \<rparr>"

definition rejecting_gateway :: listener_gateway where
  "rejecting_gateway =
     steady_gateway \<lparr> verify_transact :=
       (\<lambda>h requestId sp. if requestId = 42 then Inl ContractReverted else Inr [0x05]) \<rparr>"

definition other_entry :: storage_entry where
  "other_entry = \<lparr> se_key = [0x02], se_value = [0xbb], se_proof = [[0x0d]] \<rparr>"

definition two_entry_proof :: proof_response where
  "two_entry_proof = ex_proof \<lparr> storageProof := [other_entry, ex_entry] \<rparr>"

definition long_key_proof :: proof_response where
  "long_key_proof =
     ex_proof \<lparr> storageProof := [\<lparr> se_key = replicate 33 0x01, se_value = [0x2a], se_proof = [[0x0c]] \<rparr>] \<rparr>"

text \<open>
  For the bot: the integers that the example commands use, a stored request, two served
  events that the chain emits in the reverse order of their ids and in the order of
  their ids, a chain that emits nothing, and gateways that know request 7 only and that
  cannot reach the chain.
\<close>

definition ex_int :: "string \<Rightarrow> error + int" where
  "ex_int s =
     (if s = ''3'' then Inr 3
      else if s = ''7'' then Inr 7
      else if s = ''43'' then Inr 43
      else if s = ''18000000'' then Inr 18000000
      else Inl ValueError)"

definition ex_request_info :: request_info where
  "ex_request_info =
     \<lparr> ri_address = ''0xabc'', ri_key = 3, ri_block = 18000000, ri_timestamp = 1700000000,
       ri_field4 = 0, ri_field5 = 0, ri_served = True, ri_response = [0x2a] \<rparr>"

definition ex_served_41 :: request_served where
  "ex_served_41 = \<lparr> rs_requestId = 41, rs_reply = [0x29] \<rparr>"

definition ex_served_42 :: request_served where
  "ex_served_42 = \<lparr> rs_requestId = 42, rs_reply = [0x2a] \<rparr>"

definition reverse_order_events :: "nat \<Rightarrow> error + request_served list" where
  "reverse_order_events i =
     Inr (if i = 0 then [] else if i = 1 then [ex_served_42] else if i = 2 then [ex_served_41] else [])"

definition submission_order_events :: "nat \<Rightarrow> error + request_served list" where
  "submission_order_events i =
     Inr (if i = 0 then [] else if i = 1 then [ex_served_41] else if i = 2 then [ex_served_42] else [])"

definition no_events :: "nat \<Rightarrow> error + request_served list" where
  "no_events i = Inr []"

definition bot_steady :: bot_gateway where
  "bot_steady =
     \<lparr> py_int = ex_int,
       py_fromtimestamp = (\<lambda>t. Inr ''2023-11-14 22:13:20''),
       request_transact = (\<lambda>h account key blockId r1 r2. Inr [0x06]),
       bot_wait_for_transaction_receipt = (\<lambda>h txn_hash. Inr ()),
       getTotal = (\<lambda>h. Inr 43),
       getRequest = (\<lambda>h requestId. if requestId = 7 then Inr ex_request_info else Inl ContractReverted),
       RequestServed_events = (\<lambda>h. Inr submission_order_events) \<rparr>"

definition bot_offline :: bot_gateway where
  "bot_offline = bot_steady \<lparr> getRequest := (\<lambda>h requestId. Inl RpcError) \<rparr>"

section \<open>Properties of the listener\<close>

subsection \<open>Auxiliary facts\<close>

lemma stateProof_Nil: "storageProof proof = [] \<Longrightarrow> stateProof block account proof = Inl IndexError"
  by (simp add: stateProof_def)

lemma stateProof_Cons:
  "storageProof proof = entry # rest \<Longrightarrow>
   stateProof block account proof =
     Inr \<lparr> sp_stateRoot = stateRoot block, sp_account = account,
           sp_accountProof = accountProof proof, sp_storageHash = storageHash proof,
           sp_storageKey = pad_bytes 0 32 (se_key entry), sp_storageValue = se_value entry,
           sp_storageProof = se_proof entry \<rparr>"
  by (simp add: stateProof_def)

lemma stateProof_Inl: "stateProof block account proof = Inl err \<Longrightarrow> storageProof proof = [] \<and> err = IndexError"
  by (cases "storageProof proof") (simp_all add: stateProof_def)

lemma stateProof_Inr: "stateProof block account proof = Inr sp \<Longrightarrow> \<exists>entry rest. storageProof proof = entry # rest"
  by (cases "storageProof proof") (simp_all add: stateProof_def)

text \<open>
  One fact for each way through \<^verbatim>\<open>handle_event\<close>: the call that raises decides where
  the history ends.
\<close>

lemma handle_event_block_fails:
  "get_block gw h (rl_blockId e) = Inl err \<Longrightarrow>
   handle_event gw h e = (h @ [GetBlock (rl_blockId e)], Inl err)"
  by (simp add: handle_event_def Let_def)

lemma handle_event_proof_fails:
  "get_block gw h (rl_blockId e) = Inr block \<Longrightarrow>
   get_proof gw (h @ [GetBlock (rl_blockId e)]) (rl_account e) [rl_key e] (rl_blockId e) = Inl err \<Longrightarrow>
   handle_event gw h e =
     (h @ [GetBlock (rl_blockId e), GetProof (rl_account e) [rl_key e] (rl_blockId e)], Inl err)"
  by (simp add: handle_event_def Let_def)

lemma handle_event_assembly_fails:
  "get_block gw h (rl_blockId e) = Inr block \<Longrightarrow>
   get_proof gw (h @ [GetBlock (rl_blockId e)]) (rl_account e) [rl_key e] (rl_blockId e) = Inr proof \<Longrightarrow>
   stateProof block (rl_account e) proof = Inl err \<Longrightarrow>
   handle_event gw h e =
     (h @ [GetBlock (rl_blockId e), GetProof (rl_account e) [rl_key e] (rl_blockId e)], Inl err)"
  by (simp add: handle_event_def Let_def)

lemma handle_event_verify_fails:
  "get_block gw h (rl_blockId e) = Inr block \<Longrightarrow>
   get_proof gw (h @ [GetBlock (rl_blockId e)]) (rl_account e) [rl_key e] (rl_blockId e) = Inr proof \<Longrightarrow>
   stateProof block (rl_account e) proof = Inr sp \<Longrightarrow>
   verify_transact gw (h @ [GetBlock (rl_blockId e), GetProof (rl_account e) [rl_key e] (rl_blockId e)])
     (rl_requestId e) sp = Inl err \<Longrightarrow>
   handle_event gw h e =
     (h @ [GetBlock (rl_blockId e), GetProof (rl_account e) [rl_key e] (rl_blockId e),
           Verify (rl_requestId e) sp], Inl err)"
  by (simp add: handle_event_def Let_def)

lemma handle_event_receipt_fails:
  "get_block gw h (rl_blockId e) = Inr block \<Longrightarrow>
   get_proof gw (h @ [GetBlock (rl_blockId e)]) (rl_account e) [rl_key e] (rl_blockId e) = Inr proof \<Longrightarrow>
   stateProof block (rl_account e) proof = Inr sp \<Longrightarrow>
   verify_transact gw (h @ [GetBlock (rl_blockId e), GetProof (rl_account e) [rl_key e] (rl_blockId e)])
     (rl_requestId e) sp = Inr txn_hash \<Longrightarrow>
   wait_for_transaction_receipt gw
     (h @ [GetBlock (rl_blockId e), GetProof (rl_account e) [rl_key e] (rl_blockId e),
           Verify (rl_requestId e) sp]) txn_hash = Inl err \<Longrightarrow>
   handle_event gw h e =
     (h @ [GetBlock (rl_blockId e), GetProof (rl_account e) [rl_key e] (rl_blockId e),
           Verify (rl_requestId e) sp, WaitReceipt txn_hash], Inl err)"
  by (simp add: handle_event_def Let_def)

lemma handle_event_succeeds:
  "get_block gw h (rl_blockId e) = Inr block \<Longrightarrow>
   get_proof gw (h @ [GetBlock (rl_blockId e)]) (rl_account e) [rl_key e] (rl_blockId e) = Inr proof \<Longrightarrow>
   stateProof block (rl_account e) proof = Inr sp \<Longrightarrow>
   verify_transact gw (h @ [GetBlock (rl_blockId e), GetProof (rl_account e) [rl_key e] (rl_blockId e)])
     (rl_requestId e) sp = Inr txn_hash \<Longrightarrow>
   wait_for_transaction_receipt gw
     (h @ [GetBlock (rl_blockId e), GetProof (rl_account e) [rl_key e] (rl_blockId e),
           Verify (rl_requestId e) sp]) txn_hash = Inr u \<Longrightarrow>
   handle_event gw h e =
     (h @ [GetBlock (rl_blockId e), GetProof (rl_account e) [rl_key e] (rl_blockId e),
           Verify (rl_requestId e) sp, WaitReceipt txn_hash,
           Print (rl_requestId e) (''0x'' @ hex (sp_storageValue sp))], Inr ())"
  by (cases "storageProof proof") (auto simp: handle_event_def Let_def stateProof_def)

lemma handle_event_cases:
  obtains
    (block_fails) err where
      "handle_event gw h e = (h @ [GetBlock (rl_blockId e)], Inl err)"
  | (proof_fails) err where
      "handle_event gw h e =
         (h @ [GetBlock (rl_blockId e), GetProof (rl_account e) [rl_key e] (rl_blockId e)], Inl err)"
  | (verify_fails) err sp where
      "handle_event gw h e =
         (h @ [GetBlock (rl_blockId e), GetProof (rl_account e) [rl_key e] (rl_blockId e),
               Verify (rl_requestId e) sp], Inl err)"
  | (receipt_fails) err sp txn_hash where
      "handle_event gw h e =
         (h @ [GetBlock (rl_blockId e), GetProof (rl_account e) [rl_key e] (rl_blockId e),
               Verify (rl_requestId e) sp, WaitReceipt txn_hash], Inl err)"
  | (succeeds) sp txn_hash where
      "handle_event gw h e =
         (h @ [GetBlock (rl_blockId e), GetProof (rl_account e) [rl_key e] (rl_blockId e),
               Verify (rl_requestId e) sp, WaitReceipt txn_hash,
               Print (rl_requestId e) (''0x'' @ hex (sp_storageValue sp))], Inr ())"
      "wait_for_transaction_receipt gw
         (h @ [GetBlock (rl_blockId e), GetProof (rl_account e) [rl_key e] (rl_blockId e),
               Verify (rl_requestId e) sp]) txn_hash = Inr ()"
proof (cases "get_block gw h (rl_blockId e)")
  case (Inl err)
  then show ?thesis using block_fails handle_event_block_fails by blast
next
  case block: (Inr block)
  show ?thesis
  proof (cases "get_proof gw (h @ [GetBlock (rl_blockId e)]) (rl_account e) [rl_key e] (rl_blockId e)")
    case (Inl err)
    then show ?thesis using proof_fails handle_event_proof_fails [OF block] by blast
  next
    case resp: (Inr resp)
    show ?thesis
    proof (cases "stateProof block (rl_account e) resp")
      case (Inl err)
      then show ?thesis using proof_fails handle_event_assembly_fails [OF block resp] by blast
    next
      case sp: (Inr sp)
      show ?thesis
      proof (cases "verify_transact gw
          (h @ [GetBlock (rl_blockId e), GetProof (rl_account e) [rl_key e] (rl_blockId e)])
          (rl_requestId e) sp")
        case (Inl err)
        then show ?thesis using verify_fails handle_event_verify_fails [OF block resp sp] by blast
      next
        case txn: (Inr txn_hash)
        show ?thesis
        proof (cases "wait_for_transaction_receipt gw
            (h @ [GetBlock (rl_blockId e), GetProof (rl_account e) [rl_key e] (rl_blockId e),
                  Verify (rl_requestId e) sp]) txn_hash")
          case (Inl err)
          then show ?thesis
            using receipt_fails handle_event_receipt_fails [OF block resp sp txn] by blast
        next
          case (Inr u)
          then show ?thesis
            using succeeds handle_event_succeeds [OF block resp sp txn] by simp
        qed
      qed
    qed
  qed
qed



lemma verify_ids_append: "verify_ids (xs @ ys) = verify_ids xs @ verify_ids ys"
  by (induction xs rule: verify_ids.induct) simp_all

lemma handle_event_verify_ids:
  assumes "handle_event gw h e = (h', Inr u)"
  shows "verify_ids h' = verify_ids h @ [rl_requestId e]"
  using assms
  by (cases rule: handle_event_cases [of gw h e]) (auto simp: verify_ids_append)

lemma handle_entries_append:
  "handle_entries gw h (es1 @ es2) =
     (case handle_entries gw h es1 of
        (h1, Inl err) \<Rightarrow> (h1, Inl err)
      | (h1, Inr u) \<Rightarrow> handle_entries gw h1 es2)"
  by (induction es1 arbitrary: h) (auto split: prod.splits sum.splits)

lemma handle_entries_verify_ids:
  "handle_entries gw h es = (h', Inr u) \<Longrightarrow> verify_ids h' = verify_ids h @ map rl_requestId es"
proof (induction es arbitrary: h)
  case Nil
  then show ?case by simp
next
  case (Cons e es)
  obtain h1 r1 where ev: "handle_event gw h e = (h1, r1)" by (cases "handle_event gw h e")
  show ?case
  proof (cases r1)
    case (Inl err)
    with Cons.prems ev show ?thesis by simp
  next
    case (Inr v)
    with Cons.prems ev have "handle_entries gw h1 es = (h', Inr u)" by simp
    from Cons.IH [OF this] handle_event_verify_ids [of gw h e h1 v] ev Inr
    show ?thesis by simp
  qed
qed

lemma be_nat_append: "be_nat (xs @ ys) = foldl (\<lambda>n b. 256 * n + unat b) (be_nat xs) ys"
  by (simp add: be_nat_def)

lemma be_nat_zeros: "be_nat (replicate n 0) = 0"
  by (induction n) (simp_all add: be_nat_def replicate_app_Cons_same)

lemma be_nat_pad_bytes: "be_nat (pad_bytes 0 n bs) = be_nat bs"
  by (simp add: pad_bytes_def be_nat_append be_nat_zeros) (simp add: be_nat_def)

subsection \<open>Failure of a processing step\<close>

text \<open>
  Claim C1 says that a failing step drops one event and that the loop goes on. It does
  not hold. With the target chain out of reach, with a proof that has no storage entry,
  and with a rejected verification transaction, two iterations of the loop were asked
  for and the loop is left in the first one, at the failing call: an event after the
  failing one is never handled and no second poll is made.
\<close>

theorem log_loop_crash_counterexample:
  "log_loop rpc_down_gateway 2 2 [] =
     ([GetNewEntries, GetBlock 17999999], Crashed RpcError) \<and>
   log_loop entry_missing_gateway 2 2 [] =
     ([GetNewEntries, GetBlock 17999999, GetProof ''0xabc'' [3] 17999999], Crashed IndexError) \<and>
   log_loop rejecting_gateway 2 2 [] =
     ([GetNewEntries,
       GetBlock 17999999, GetProof ''0xabc'' [3] 17999999, Verify 41 ex_state_proof,
       WaitReceipt [0x05], Print 41 ''0x2a'',
       GetBlock 18000000, GetProof ''0xabc'' [3] 18000000, Verify 42 ex_state_proof],
      Crashed ContractReverted)"
  by code_simp

text \<open>
  Claim C1, as the code has it: \<^verbatim>\<open>handle_event\<close> and \<^verbatim>\<open>log_loop\<close> catch nothing
  and write no log. When the events before an event \<open>e\<close> of a batch were handled and a
  step for \<open>e\<close> raises, whatever the exception, the loop ends with that exception, and
  the history ends at the failing call: the rest of the batch and every later poll are
  not processed.
\<close>

theorem log_loop_crash:
  assumes "get_new_entries gw h = Inr (pre @ e # post)"
    and "handle_entries gw (h @ [GetNewEntries]) pre = (h1, Inr ())"
    and "handle_event gw h1 e = (h2, Inl err)"
  shows "log_loop gw poll_interval (Suc n) h = (h2, Crashed err)"
  using assms by (simp add: handle_entries_append)

text \<open>
  An instance: request 41 is served, the verification of request 42 is rejected, and the
  loop ends there.
\<close>

theorem log_loop_crash_witness:
  "get_new_entries rejecting_gateway [] = Inr ([ex_event_41] @ ex_event_42 # []) \<and>
   log_loop rejecting_gateway 2 (Suc 1) [] =
     ([GetNewEntries,
       GetBlock 17999999, GetProof ''0xabc'' [3] 17999999, Verify 41 ex_state_proof,
       WaitReceipt [0x05], Print 41 ''0x2a'',
       GetBlock 18000000, GetProof ''0xabc'' [3] 18000000, Verify 42 ex_state_proof],
      Crashed ContractReverted)"
proof -
  have poll: "get_new_entries rejecting_gateway [] = Inr ([ex_event_41] @ ex_event_42 # [])"
    by code_simp
  have first: "handle_entries rejecting_gateway ([] @ [GetNewEntries]) [ex_event_41] =
      ([GetNewEntries, GetBlock 17999999, GetProof ''0xabc'' [3] 17999999,
        Verify 41 ex_state_proof, WaitReceipt [0x05], Print 41 ''0x2a''], Inr ())"
    by code_simp
  have second: "handle_event rejecting_gateway
      [GetNewEntries, GetBlock 17999999, GetProof ''0xabc'' [3] 17999999,
        Verify 41 ex_state_proof, WaitReceipt [0x05], Print 41 ''0x2a''] ex_event_42 =
      ([GetNewEntries,
       GetBlock 17999999, GetProof ''0xabc'' [3] 17999999, Verify 41 ex_state_proof,
       WaitReceipt [0x05], Print 41 ''0x2a'',
       GetBlock 18000000, GetProof ''0xabc'' [3] 18000000, Verify 42 ex_state_proof],
       Inl ContractReverted)"
    by code_simp
  from log_loop_crash [OF poll first second, of 2 1] poll show ?thesis by simp
qed

subsection \<open>Verification transactions per request id\<close>

text \<open>
  Claim C2 says that at most one verification transaction is submitted per request id.
  It does not hold: the same event twice in a batch gives two submissions for id 42, and
  once gives one.
\<close>

theorem verify_twice_counterexample:
  "verify_ids (fst (handle_entries steady_gateway [] [ex_event_42, ex_event_42])) = [42, 42] \<and>
   verify_ids (fst (handle_entries steady_gateway [] [ex_event_42])) = [42]"
  by code_simp

text \<open>
  Claim C2, as the code has it: the listener keeps no record of the ids it served. When
  every step succeeds, it submits one verification transaction for every event it is
  given, in the order of the events, so an id that occurs twice is submitted twice.
\<close>

theorem verify_per_event:
  assumes "handle_entries gw h es = (h', Inr ())"
  shows "verify_ids h' = verify_ids h @ map rl_requestId es"
  using assms by (rule handle_entries_verify_ids)

text \<open>
  An instance with request 42 before and after request 41.
\<close>

theorem verify_per_event_witness:
  "handle_entries steady_gateway [] [ex_event_42, ex_event_41, ex_event_42] =
     ([GetBlock 18000000, GetProof ''0xabc'' [3] 18000000, Verify 42 ex_state_proof,
       WaitReceipt [0x05], Print 42 ''0x2a'',
       GetBlock 17999999, GetProof ''0xabc'' [3] 17999999, Verify 41 ex_state_proof,
       WaitReceipt [0x05], Print 41 ''0x2a'',
       GetBlock 18000000, GetProof ''0xabc'' [3] 18000000, Verify 42 ex_state_proof,
       WaitReceipt [0x05], Print 42 ''0x2a''], Inr ()) \<and>
   verify_ids
     [GetBlock 18000000, GetProof ''0xabc'' [3] 18000000, Verify 42 ex_state_proof,
       WaitReceipt [0x05], Print 42 ''0x2a'',
       GetBlock 17999999, GetProof ''0xabc'' [3] 17999999, Verify 41 ex_state_proof,
       WaitReceipt [0x05], Print 41 ''0x2a'',
       GetBlock 18000000, GetProof ''0xabc'' [3] 18000000, Verify 42 ex_state_proof,
       WaitReceipt [0x05], Print 42 ''0x2a''] = [42, 41, 42]"
proof -
  have run: "handle_entries steady_gateway [] [ex_event_42, ex_event_41, ex_event_42] =
     ([GetBlock 18000000, GetProof ''0xabc'' [3] 18000000, Verify 42 ex_state_proof,
       WaitReceipt [0x05], Print 42 ''0x2a'',
       GetBlock 17999999, GetProof ''0xabc'' [3] 17999999, Verify 41 ex_state_proof,
       WaitReceipt [0x05], Print 41 ''0x2a'',
       GetBlock 18000000, GetProof ''0xabc'' [3] 18000000, Verify 42 ex_state_proof,
       WaitReceipt [0x05], Print 42 ''0x2a''], Inr ())"
    by code_simp
  from verify_per_event [OF run] run show ?thesis by simp
qed

subsection \<open>The state proof\<close>

text \<open>
  Claim C3 says that the storage key, value and proof of the state proof are taken from
  the entry that matches the requested key, whenever the answer has such an entry. It
  does not hold: for the requested key 3 and an answer whose second entry matches and
  whose first entry is for key 2, the state proof carries the key, the value and the
  proof of the first entry.
\<close>

theorem stateProof_wrong_entry_counterexample:
  "key_matches 3 ex_entry \<and> \<not> key_matches 3 other_entry \<and>
   ex_entry \<in> set (storageProof two_entry_proof) \<and>
   stateProof ex_block ''0xabc'' two_entry_proof =
     Inr \<lparr> sp_stateRoot = [0x11], sp_account = ''0xabc'', sp_accountProof = [[0x0a]],
           sp_storageHash = [0x0b], sp_storageKey = replicate 31 0 @ [0x02],
           sp_storageValue = [0xbb], sp_storageProof = [[0x0d]] \<rparr> \<and>
   se_value ex_entry = [0x2a]"
  by (simp add: ex_entry_def other_entry_def two_entry_proof_def ex_proof_def ex_block_def
      key_matches_def be_nat_def stateProof_def pad_bytes_def)

text \<open>
  Claim C3, as the code has it: whenever the answer has a storage-proof entry, the state
  proof is built, its state root is the one of the block header, its account is the one
  of the event, its account proof and storage hash are those of the answer, and its
  storage key, value and proof are those of the first entry of the answer, the key padded.
  The padded key is the same number as the key of that entry, so the state proof is for
  the requested key when the first entry is.
\<close>

theorem stateProof_first_entry:
  assumes "storageProof proof = entry # rest"
  shows "\<exists>sp. stateProof block account proof = Inr sp \<and>
           sp_stateRoot sp = stateRoot block \<and>
           sp_account sp = account \<and>
           sp_accountProof sp = accountProof proof \<and>
           sp_storageHash sp = storageHash proof \<and>
           sp_storageKey sp = pad_bytes 0 32 (se_key entry) \<and>
           sp_storageValue sp = se_value entry \<and>
           sp_storageProof sp = se_proof entry \<and>
           be_nat (sp_storageKey sp) = be_nat (se_key entry)"
  using assms by (simp add: stateProof_Cons be_nat_pad_bytes)

text \<open>
  An instance: the answer to the query for key 3 has one entry, which is for key 3.
\<close>

theorem stateProof_first_entry_witness:
  "storageProof ex_proof = ex_entry # [] \<and>
   stateProof ex_block ''0xabc'' ex_proof = Inr ex_state_proof \<and>
   key_matches 3 ex_entry \<and>
   be_nat (sp_storageKey ex_state_proof) = 3"
proof -
  have entries: "storageProof ex_proof = ex_entry # []" by (simp add: ex_proof_def)
  from stateProof_first_entry [OF entries, of ex_block "''0xabc''"]
  show ?thesis
    by (auto simp: ex_proof_def ex_entry_def ex_block_def ex_state_proof_def
        key_matches_def be_nat_def pad_bytes_def state_proof.equality)
qed

subsection \<open>The width of the storage key\<close>

text \<open>
  Claim C4 says that the storage key of every state proof is exactly 32 bytes long. It
  does not hold for an entry whose key is longer: padding does not cut, and a key of 33
  bytes stays 33 bytes long.
\<close>

theorem storageKey_long_counterexample:
  "stateProof ex_block ''0xabc'' long_key_proof =
     Inr \<lparr> sp_stateRoot = [0x11], sp_account = ''0xabc'', sp_accountProof = [[0x0a]],
           sp_storageHash = [0x0b], sp_storageKey = replicate 33 0x01,
           sp_storageValue = [0x2a], sp_storageProof = [[0x0c]] \<rparr> \<and>
   length (replicate 33 (0x01 :: byte)) = 33"
  by (simp add: long_key_proof_def ex_proof_def ex_block_def stateProof_def pad_bytes_def)

text \<open>
  Claim C4, as the code has it: the key of the first entry is padded on the left with
  zero bytes to 32 bytes when it is at most 32 bytes long, and is passed on as it is
  when it is longer. So the storage key is exactly 32 bytes long for every key of at most
  32 bytes, which every 256-bit slot key is.
\<close>

theorem storageKey_width:
  assumes "stateProof block account proof = Inr sp"
    and "storageProof proof = entry # rest"
  shows "sp_storageKey sp =
           (if length (se_key entry) \<le> 32
            then replicate (32 - length (se_key entry)) 0 @ se_key entry
            else se_key entry) \<and>
         length (sp_storageKey sp) = max 32 (length (se_key entry))"
  using assms by (auto simp: stateProof_def pad_bytes_def)

text \<open>
  An instance: the key 0x01 becomes 31 zero bytes and then 0x01.
\<close>

theorem storageKey_width_witness:
  "stateProof ex_block ''0xabc'' (ex_proof \<lparr> storageProof := [ex_entry \<lparr> se_key := [0x01] \<rparr>] \<rparr>) =
     Inr (ex_state_proof \<lparr> sp_storageKey := replicate 31 0 @ [0x01] \<rparr>) \<and>
   length (sp_storageKey (ex_state_proof \<lparr> sp_storageKey := replicate 31 0 @ [0x01] \<rparr>)) = 32"
proof -
  have built: "stateProof ex_block ''0xabc'' (ex_proof \<lparr> storageProof := [ex_entry \<lparr> se_key := [0x01] \<rparr>] \<rparr>) =
     Inr (ex_state_proof \<lparr> sp_storageKey := replicate 31 0 @ [0x01] \<rparr>)"
    by (simp add: ex_proof_def ex_entry_def ex_block_def ex_state_proof_def
        stateProof_def pad_bytes_def)
  have entries: "storageProof (ex_proof \<lparr> storageProof := [ex_entry \<lparr> se_key := [0x01] \<rparr>] \<rparr>) =
     (ex_entry \<lparr> se_key := [0x01] \<rparr>) # []"
    by simp
  from storageKey_width [OF built entries] built show ?thesis by simp
qed

subsection \<open>The order of processing\<close>



section \<open>Properties of the bot\<close>

subsection \<open>Auxiliary facts\<close>

lemma listen_error: "eventFilter i = Inl err \<Longrightarrow> listen eventFilter i = Some (Inl err)"
  by (subst listen.simps) simp

lemma listen_received:
  "eventFilter i = Inr entries \<Longrightarrow> entries \<noteq> [] \<Longrightarrow>
   listen eventFilter i = Some (Inr (hd entries))"
  by (subst listen.simps) (simp add: hd_conv_nth)

lemma listen_empty: "eventFilter i = Inr [] \<Longrightarrow> listen eventFilter i = listen eventFilter (Suc i)"
  by (subst listen.simps) simp

lemma listen_skip:
  "(\<forall>j<k. eventFilter (i + j) = Inr []) \<Longrightarrow> listen eventFilter i = listen eventFilter (i + k)"
proof (induction k arbitrary: i)
  case 0
  then show ?case by simp
next
  case (Suc k)
  from Suc.prems have first: "eventFilter i = Inr []" by (metis add.right_neutral zero_less_Suc)
  from Suc.prems have "\<forall>j<k. eventFilter (Suc i + j) = Inr []"
    by (metis Suc_less_eq add_Suc_shift)
  from Suc.IH [OF this] listen_empty [of eventFilter i] first show ?case by simp
qed

lemma listen_Some_poll:
  assumes "listen eventFilter i = Some r"
  shows "\<exists>k. eventFilter (i + k) \<noteq> Inr []"
proof (rule listen.raw_induct [where P = "\<lambda>f i r. \<exists>k. f (i + k) \<noteq> Inr []", OF _ assms])
  fix listen' :: "(nat \<Rightarrow> error + 'a list) \<Rightarrow> nat \<Rightarrow> (error + 'a) option"
  fix f i r
  assume IH: "\<And>f i r. listen' f i = Some r \<Longrightarrow> \<exists>k. f (i + k) \<noteq> Inr []"
  assume step: "(case f i of Inl err \<Rightarrow> Some (Inl err)
        | Inr entries \<Rightarrow> if 0 < length entries then Some (Inr (entries ! 0)) else listen' f (Suc i)) = Some r"
  show "\<exists>k. f (i + k) \<noteq> Inr []"
  proof (cases "f i = Inr []")
    case True
    with step have "listen' f (Suc i) = Some r" by simp
    from IH [OF this] obtain k where "f (Suc i + k) \<noteq> Inr []" by blast
    then have "f (i + Suc k) \<noteq> Inr []" by simp
    then show ?thesis by blast
  next
    case False
    then have "f (i + 0) \<noteq> Inr []" by simp
    then show ?thesis by blast
  qed
qed

lemma listen_blocks:
  "(\<forall>k. eventFilter (i + k) = Inr []) \<Longrightarrow> listen eventFilter i = None"
  using listen_Some_poll [of eventFilter i] by (cases "listen eventFilter i") auto

text \<open>
  The first poll that is not an empty batch decides the result.
\<close>

lemma listen_first_poll:
  assumes "\<exists>k. eventFilter (i + k) \<noteq> Inr []"
  obtains k where "\<forall>j<k. eventFilter (i + j) = Inr []"
    and "eventFilter (i + k) \<noteq> Inr []"
    and "listen eventFilter i = listen eventFilter (i + k)"
proof -
  define k where "k = (LEAST k. eventFilter (i + k) \<noteq> Inr [])"
  have hit: "eventFilter (i + k) \<noteq> Inr []"
    unfolding k_def using assms by (rule LeastI_ex)
  have before: "\<forall>j<k. eventFilter (i + j) = Inr []"
    unfolding k_def using not_less_Least by blast
  from listen_skip [OF before] before hit that show thesis by blast
qed

lemma listen_Some_Inr:
  assumes "listen eventFilter i = Some (Inr event)"
  shows "\<exists>k entries. (\<forall>j<k. eventFilter (i + j) = Inr []) \<and>
           eventFilter (i + k) = Inr entries \<and> entries \<noteq> [] \<and> event = hd entries"
proof -
  from listen_Some_poll [OF assms] obtain k where
    before: "\<forall>j<k. eventFilter (i + j) = Inr []" and
    hit: "eventFilter (i + k) \<noteq> Inr []" and
    skip: "listen eventFilter i = listen eventFilter (i + k)"
    by (rule listen_first_poll)
  show ?thesis
  proof (cases "eventFilter (i + k)")
    case (Inl err)
    from listen_error [of eventFilter "i + k" err] Inl skip assms show ?thesis by simp
  next
    case (Inr entries)
    with hit have nonempty: "entries \<noteq> []" by simp
    from listen_received [of eventFilter "i + k" entries] Inr nonempty skip assms
    have "event = hd entries" by simp
    with before Inr nonempty show ?thesis by blast
  qed
qed



lemma replies_append: "replies (xs @ ys) = replies xs @ replies ys"
  by (induction xs rule: replies.induct) simp_all

subsection \<open>The wait for the served event\<close>

text \<open>
  Claim C9: \<^verbatim>\<open>listen\<close> returns an event exactly when some poll returns a batch that
  is not empty after polls that returned empty batches, and the event is the first entry
  of that batch; there is no bound on the number of polls, and when every poll returns
  the empty batch the call never returns. (A poll that raises ends the call with its
  exception, which is neither of the two.)
\<close>

theorem listen_returns_iff:
  "(listen eventFilter i = Some (Inr event) \<longleftrightarrow>
      (\<exists>k entries. (\<forall>j<k. eventFilter (i + j) = Inr []) \<and>
         eventFilter (i + k) = Inr entries \<and> entries \<noteq> [] \<and> event = hd entries)) \<and>
   (listen eventFilter i = None \<longleftrightarrow> (\<forall>k. eventFilter (i + k) = Inr []))"
proof (intro conjI iffI)
  assume "listen eventFilter i = Some (Inr event)"
  then show "\<exists>k entries. (\<forall>j<k. eventFilter (i + j) = Inr []) \<and>
         eventFilter (i + k) = Inr entries \<and> entries \<noteq> [] \<and> event = hd entries"
    by (rule listen_Some_Inr)
next
  assume "\<exists>k entries. (\<forall>j<k. eventFilter (i + j) = Inr []) \<and>
         eventFilter (i + k) = Inr entries \<and> entries \<noteq> [] \<and> event = hd entries"
  then obtain k entries where before: "\<forall>j<k. eventFilter (i + j) = Inr []"
    and hit: "eventFilter (i + k) = Inr entries" "entries \<noteq> []" and ev: "event = hd entries"
    by blast
  from listen_skip [OF before] listen_received [of eventFilter "i + k" entries] hit ev
  show "listen eventFilter i = Some (Inr event)" by simp
next
  assume none: "listen eventFilter i = None"
  show "\<forall>k. eventFilter (i + k) = Inr []"
  proof (rule ccontr)
    assume "\<not> (\<forall>k. eventFilter (i + k) = Inr [])"
    then have "\<exists>k. eventFilter (i + k) \<noteq> Inr []" by blast
    then obtain k where hit: "eventFilter (i + k) \<noteq> Inr []"
      and skip: "listen eventFilter i = listen eventFilter (i + k)"
      by (rule listen_first_poll)
    show False
    proof (cases "eventFilter (i + k)")
      case (Inl err)
      from listen_error [of eventFilter "i + k" err] Inl skip none show False by simp
    next
      case (Inr entries)
      with hit have "entries \<noteq> []" by simp
      with listen_received [of eventFilter "i + k" entries] Inr skip none show False by simp
    qed
  qed
next
  assume "\<forall>k. eventFilter (i + k) = Inr []"
  then show "listen eventFilter i = None" by (rule listen_blocks)
qed

text \<open>
  An instance of both halves: a stream whose second poll has an event, and the stream
  without events.
\<close>

theorem listen_returns_iff_witness:
  "listen reverse_order_events 0 = Some (Inr ex_served_42) \<and> listen no_events 0 = None"
proof -
  have "\<exists>k entries. (\<forall>j<k. reverse_order_events (0 + j) = Inr []) \<and>
         reverse_order_events (0 + k) = Inr entries \<and> entries \<noteq> [] \<and> ex_served_42 = hd entries"
    by (intro exI [of _ 1] exI [of _ "[ex_served_42]"]) (simp add: reverse_order_events_def)
  moreover have "\<forall>k. no_events (0 + k) = Inr []" by (simp add: no_events_def)
  ultimately show ?thesis
    using listen_returns_iff [of reverse_order_events 0 ex_served_42]
      listen_returns_iff [of no_events 0 ex_served_42]
    by blast
qed

subsection \<open>Which event ends a wait\<close>

text \<open>
  Claim C7: the event that a wait for a request id returns is a \<^verbatim>\<open>RequestServed\<close>
  event that the chain emitted with that request id; an event with another id never ends
  the wait.
\<close>

theorem listen_filtered_requestId:
  assumes "listen (createFilter emitted requestId) i = Some (Inr event)"
  shows "rs_requestId event = requestId \<and>
         (\<exists>k events. emitted (i + k) = Inr events \<and> event \<in> set events)"
proof -
  from listen_Some_Inr [OF assms] obtain k entries where
    hit: "createFilter emitted requestId (i + k) = Inr entries" and
    nonempty: "entries \<noteq> []" and ev: "event = hd entries"
    by blast
  from hit obtain events where
    raw: "emitted (i + k) = Inr events" and
    kept: "entries = filter (\<lambda>event. rs_requestId event = requestId) events"
    by (auto simp: createFilter_def split: sum.splits)
  from nonempty ev have "event \<in> set entries" by simp
  with kept have "rs_requestId event = requestId" "event \<in> set events" by simp_all
  with raw show ?thesis by blast
qed

text \<open>
  An instance: request 42 is served before request 41, and each wait returns the event
  of its own id.
\<close>

theorem listen_filtered_requestId_witness:
  "listen (createFilter reverse_order_events 41) 0 = Some (Inr ex_served_41) \<and>
   rs_requestId ex_served_41 = 41 \<and>
   listen (createFilter reverse_order_events 42) 0 = Some (Inr ex_served_42) \<and>
   rs_requestId ex_served_42 = 42"
proof -
  have w41: "listen (createFilter reverse_order_events 41) 0 = Some (Inr ex_served_41)"
    by code_simp
  have w42: "listen (createFilter reverse_order_events 42) 0 = Some (Inr ex_served_42)"
    by code_simp
  from listen_filtered_requestId [OF w41] listen_filtered_requestId [OF w42] w41 w42
  show ?thesis by simp
qed

subsection \<open>The steps of a submission\<close>



subsection \<open>A failed status query\<close>

text \<open>
  Claim C5 says that a query for an unknown request id is answered as not found and that
  a transport failure is not. It does not hold: when the chain cannot be reached the
  user gets the same not-found message as for a request id that the contract does not
  know.
\<close>

theorem check_same_message_counterexample:
  "getRequest bot_offline [] 43 = Inl RpcError \<and>
   check bot_offline [] [''43''] = ([CallGetRequest 43, ReplyText (RequestNotFound 43)], Inr ()) \<and>
   getRequest bot_steady [] 43 = Inl ContractReverted \<and>
   check bot_steady [] [''43''] = ([CallGetRequest 43, ReplyText (RequestNotFound 43)], Inr ())"
  by code_simp

text \<open>
  Claim C5, as the code has it: whenever the call of \<^verbatim>\<open>getRequest\<close> fails, for an
  unknown request id or for any other reason, a transport error among them, the user
  gets the not-found message for that id; the reasons are not told apart.
\<close>

theorem check_failure_not_found:
  assumes "py_int gw argument = Inr requestId"
    and "getRequest gw h requestId = Inl err"
  shows "check gw h (argument # rest) =
           (h @ [CallGetRequest requestId, ReplyText (RequestNotFound requestId)], Inr ())"
  using assms by (simp add: check_def arg_def)

text \<open>
  An instance with a chain that cannot be reached.
\<close>

theorem check_failure_not_found_witness:
  "py_int bot_offline ''43'' = Inr 43 \<and> getRequest bot_offline [] 43 = Inl RpcError \<and>
   check bot_offline [] (''43'' # []) =
     ([] @ [CallGetRequest 43, ReplyText (RequestNotFound 43)], Inr ())"
proof -
  have parsed: "py_int bot_offline ''43'' = Inr 43" by code_simp
  have failed: "getRequest bot_offline [] 43 = Inl RpcError" by code_simp
  from check_failure_not_found [OF parsed failed] parsed failed show ?thesis by simp
qed

subsection \<open>The replies of a status query\<close>

text \<open>
  Claim C10 says that the handler never lets an exception through and always sends one
  message. It does not hold for every command: the argument is read and parsed before
  the \<^verbatim>\<open>try\<close>, so a command without argument and a command whose argument is not
  an integer end with the exception and without a message.
\<close>

theorem check_raises_counterexample:
  "check bot_steady [] [] = ([], Inl IndexError) \<and>
   check bot_steady [] [''abc''] = ([], Inl ValueError)"
  by code_simp

text \<open>
  Claim C10, as the code has it: for every command whose first argument is an integer,
  and for every outcome of \<^verbatim>\<open>getRequest\<close>, the handler returns without an exception
  and sends exactly one message: the details of the request when the call and the
  formatting of its result succeed, and the not-found message in every other case.
\<close>

theorem check_one_reply:
  assumes "py_int gw argument = Inr requestId"
  shows "snd (check gw h (argument # rest)) = Inr () \<and>
         replies (fst (check gw h (argument # rest))) =
           replies h @
           [case getRequest gw h requestId of
              Inl err \<Rightarrow> RequestNotFound requestId
            | Inr msg \<Rightarrow>
               (case py_fromtimestamp gw (ri_timestamp msg) of
                  Inl err \<Rightarrow> RequestNotFound requestId
                | Inr date \<Rightarrow>
                    RequestStatus requestId (ri_address msg) (ri_key msg) (ri_block msg)
                      date (ri_served msg) (''0x'' @ hex (ri_response msg)))]"
  using assms by (simp add: check_def arg_def replies_append split: sum.splits)

text \<open>
  An instance: the stored request 7.
\<close>

theorem check_one_reply_witness:
  "py_int bot_steady ''7'' = Inr 7 \<and>
   snd (check bot_steady [] (''7'' # [])) = Inr () \<and>
   replies (fst (check bot_steady [] (''7'' # []))) =
     [RequestStatus 7 ''0xabc'' 3 18000000 ''2023-11-14 22:13:20'' True ''0x2a'']"
proof -
  have parsed: "py_int bot_steady ''7'' = Inr 7" by code_simp
  from check_one_reply [OF parsed, of "[]" "[]"] parsed show ?thesis
    by (simp add: bot_steady_def ex_int_def ex_request_info_def hex_def hexdigit_def)
qed

end
